theory Spec2Isabelle
  imports Main
begin

section \<open>Get-ChangedDisksSince: the disk-change correlation pipeline\<close>

text \<open>
  The script audits Azure Managed Disks: it reads Activity-Log events per subscription,
  derives attach/detach records from consecutive VM write events, optionally enriches and
  backfills the disk changes from Azure Resource Graph (ARG), and exports both lists.
  Each PowerShell function of the script is embedded below as a HOL function of the same
  name (hyphens dropped). A PowerShell \<^verbatim>\<open>$null\<close> is \<open>None\<close>; strings are lists of
  8-bit characters.
\<close>

subsection \<open>PowerShell strings\<close>

text \<open>
  \<^verbatim>\<open>-eq\<close>, \<^verbatim>\<open>-like\<close> and \<^verbatim>\<open>-match\<close> compare strings without regard to case, and
  \<^verbatim>\<open>.ToLower()\<close> lowers a string. Case is modelled on the letters A to Z.
\<close>

definition lowerTable :: "(char \<times> char) list" where
  "lowerTable = zip ''ABCDEFGHIJKLMNOPQRSTUVWXYZ'' ''abcdefghijklmnopqrstuvwxyz''"

definition toLowerChar :: "char \<Rightarrow> char" where
  "toLowerChar c = (case map_of lowerTable c of Some d \<Rightarrow> d | None \<Rightarrow> c)"

definition ToLower :: "string \<Rightarrow> string" where
  "ToLower s = map toLowerChar s"

text \<open>\<^verbatim>\<open>$a -eq $b\<close> for a string \<open>a\<close> and a string \<open>b\<close>.\<close>

definition strEq :: "string \<Rightarrow> string \<Rightarrow> bool" where
  "strEq a b = (ToLower a = ToLower b)"

text \<open>
  \<^verbatim>\<open>$a -eq $b\<close> where the left operand may be \<^verbatim>\<open>$null\<close> and the right one is a
  string: \<^verbatim>\<open>$null\<close> equals no string, not even the empty one.
\<close>

fun psEq :: "string option \<Rightarrow> string \<Rightarrow> bool" where
  "psEq None b = False"
| "psEq (Some a) b = strEq a b"

text \<open>
  The characters \<^verbatim>\<open>[string]::IsNullOrWhiteSpace\<close> and the regex class \<^verbatim>\<open>\s\<close> take
  for white space, among the 8-bit ones: tab, line feed, vertical tab, form feed,
  carriage return, space, next line (0x85) and no-break space (0xA0).
\<close>

definition isWhiteSpace :: "char \<Rightarrow> bool" where
  "isWhiteSpace c =
     (c \<in> set [CHR 0x09, CHR 0x0A, CHR 0x0B, CHR 0x0C, CHR 0x0D, CHR 0x20, CHR 0x85, CHR 0xA0])"

definition IsNullOrWhiteSpace :: "string \<Rightarrow> bool" where
  "IsNullOrWhiteSpace s = list_all isWhiteSpace s"

text \<open>
  \<^verbatim>\<open>$s -split '/'\<close>: the pieces between the slashes, empty pieces kept, so a string
  with \<open>n\<close> slashes has \<open>n + 1\<close> pieces.
\<close>

fun splitOn :: "char \<Rightarrow> string \<Rightarrow> string list" where
  "splitOn c [] = [[]]"
| "splitOn c (x # xs) =
     (if x = c then [] # splitOn c xs
      else (case splitOn c xs of [] \<Rightarrow> [[x]] | p # ps \<Rightarrow> (x # p) # ps))"

text \<open>
  \<^verbatim>\<open>$parts[i]\<close>: an index past the end of an array reads as \<^verbatim>\<open>$null\<close> (the script
  does not turn strict mode on).
\<close>

definition idx :: "'a list \<Rightarrow> nat \<Rightarrow> 'a option" where
  "idx xs i = (if i < length xs then Some (xs ! i) else None)"

text \<open>A value inside a double-quoted string or under \<^verbatim>\<open>-f\<close>: \<^verbatim>\<open>$null\<close> prints as nothing.\<close>

fun str :: "string option \<Rightarrow> string" where
  "str None = []"
| "str (Some s) = s"

subsection \<open>Parse-ResourceId\<close>

record ridInfo =
  rid_SubscriptionId :: "string option"
  rid_ResourceGroup :: "string option"
  rid_Provider :: "string option"
  rid_Type :: "string option"
  rid_Name :: "string option"

definition ridNull :: ridInfo where
  "ridNull = \<lparr>rid_SubscriptionId = None, rid_ResourceGroup = None, rid_Provider = None,
     rid_Type = None, rid_Name = None\<rparr>"

text \<open>
  The parameter is declared \<^verbatim>\<open>[string]$rid\<close>, so a \<^verbatim>\<open>$null\<close> argument arrives as the
  empty string. The four assignments run in the order of the source; each is guarded by
  the number of pieces only.
\<close>

definition ParseResourceId :: "string \<Rightarrow> ridInfo" where
  "ParseResourceId rid =
     (if IsNullOrWhiteSpace rid then ridNull
      else
        let parts = splitOn (CHR ''/'') rid;
            r1 = (if length parts \<ge> 3 then ridNull\<lparr>rid_SubscriptionId := idx parts 2\<rparr> else ridNull);
            r2 = (if length parts \<ge> 5 then r1\<lparr>rid_ResourceGroup := idx parts 4\<rparr> else r1);
            r3 = (if length parts \<ge> 7
                  then r2\<lparr>rid_Provider := Some (str (idx parts 6) @ ''/'' @ str (idx parts 7))\<rparr>
                  else r2);
            r4 = (if length parts \<ge> 9 then r3\<lparr>rid_Type := idx parts 7, rid_Name := idx parts 8\<rparr> else r3)
        in r4)"

subsection \<open>Invoke-ArgQuery\<close>






subsection \<open>Extract-DiskIdsFromVmJson\<close>

text \<open>
  The function collects, in a \<^verbatim>\<open>HashSet[string]\<close>, the first group of every match of
  \<^verbatim>\<open>"managedDisk"\s*:\s*\{[^}]*"id"\s*:\s*"([^"]+)"\<close>
  in the payload (\<^verbatim>\<open>[regex]::Matches\<close>, which tells upper from lower case). The matcher
  below follows the pattern piece by piece; each function takes the text at the current
  position and returns what is left after the piece, or \<open>None\<close> when the piece does not
  match there.
\<close>

text \<open>A literal piece of the pattern.\<close>

fun stripPrefix :: "string \<Rightarrow> string \<Rightarrow> string option" where
  "stripPrefix [] s = Some s"
| "stripPrefix (p # ps) [] = None"
| "stripPrefix (p # ps) (c # cs) = (if p = c then stripPrefix ps cs else None)"

text \<open>
  \<^verbatim>\<open>\s*\<close>: in this pattern it is always followed by a character that is no white
  space, so giving white space back never helps and the run is taken whole.
\<close>

definition skipWs :: "string \<Rightarrow> string" where
  "skipWs s = dropWhile isWhiteSpace s"

text \<open>\<^verbatim>\<open>\s*:\s*\<close> followed by the character \<open>c\<close> (the brace or the quote).\<close>

definition colonThen :: "char \<Rightarrow> string \<Rightarrow> string option" where
  "colonThen c s =
     (case skipWs s of
        [] \<Rightarrow> None
      | x # r \<Rightarrow>
          if x = CHR '':'' then
            (case skipWs r of [] \<Rightarrow> None | y # r' \<Rightarrow> if y = c then Some r' else None)
          else None)"

text \<open>
  \<^verbatim>\<open>"id"\s*:\s*"([^"]+)"\<close>: the group is the longest run of characters other than a
  quote; it must not be empty and a quote must follow it. The result is the group and
  the text after the closing quote.
\<close>

definition matchId :: "string \<Rightarrow> (string \<times> string) option" where
  \<open>matchId s =
     (case stripPrefix ''"id"'' s of
        None \<Rightarrow> None
      | Some r \<Rightarrow>
          (case colonThen (CHR 0x22) r of
             None \<Rightarrow> None
           | Some v \<Rightarrow>
               let cap = takeWhile (\<lambda>c. c \<noteq> CHR 0x22) v;
                   rest = dropWhile (\<lambda>c. c \<noteq> CHR 0x22) v
               in if cap = [] then None
                  else (case rest of [] \<Rightarrow> None | q # rest' \<Rightarrow> Some (cap, rest'))))\<close>

text \<open>
  \<^verbatim>\<open>[^}]*\<close> followed by the rest of the pattern: the star is greedy, so it first runs
  to the first closing brace (or the end of the text) and then gives back one character
  at a time until the rest matches. The rightmost position before the first closing
  brace where \<open>matchId\<close> succeeds wins.
\<close>

fun lastId :: "string \<Rightarrow> (string \<times> string) option" where
  "lastId [] = matchId []"
| "lastId (c # cs) =
     (if c = CHR ''}'' then matchId (c # cs)
      else (case lastId cs of Some r \<Rightarrow> Some r | None \<Rightarrow> matchId (c # cs)))"

text \<open>The whole pattern at the current position.\<close>

definition matchHere :: "string \<Rightarrow> (string \<times> string) option" where
  \<open>matchHere s =
     (case stripPrefix ''"managedDisk"'' s of
        None \<Rightarrow> None
      | Some r \<Rightarrow> (case colonThen (CHR ''{'') r of None \<Rightarrow> None | Some b \<Rightarrow> lastId b))\<close>

lemma stripPrefix_length: "stripPrefix p s = Some r \<Longrightarrow> length r \<le> length s"
  by (induction p s rule: stripPrefix.induct) (auto split: if_splits)

lemma skipWs_length: "length (skipWs s) \<le> length s"
  by (simp add: skipWs_def length_dropWhile_le)

lemma colonThen_length:
  assumes "colonThen c s = Some r"
  shows "length r < length s"
proof -
  from assms obtain x t where t: "skipWs s = x # t"
    by (auto simp: colonThen_def split: list.splits)
  with assms obtain y where y: "skipWs t = y # r"
    by (auto simp: colonThen_def split: list.splits if_splits)
  have "length (skipWs t) \<le> length t" by (rule skipWs_length)
  moreover have "length (skipWs s) \<le> length s" by (rule skipWs_length)
  ultimately show ?thesis using t y by simp
qed

lemma matchId_length:
  assumes "matchId s = Some (cap, r)"
  shows "length r < length s"
proof -
  from assms obtain u where u: \<open>stripPrefix ''"id"'' s = Some u\<close>
    by (auto simp: matchId_def split: option.splits)
  with assms obtain v where v: "colonThen (CHR 0x22) u = Some v"
    by (auto simp: matchId_def split: option.splits)
  with assms u obtain q where q: "dropWhile (\<lambda>c. c \<noteq> CHR 0x22) v = q # r"
    by (auto simp: matchId_def Let_def split: option.splits if_splits list.splits)
  have "length (dropWhile (\<lambda>c. c \<noteq> CHR 0x22) v) \<le> length v"
    by (rule length_dropWhile_le)
  with q have "length r < length v" by simp
  with colonThen_length[OF v] stripPrefix_length[OF u] show ?thesis by simp
qed

lemma lastId_length: "lastId s = Some (cap, r) \<Longrightarrow> length r < length s"
proof (induction s)
  case Nil
  then show ?case by (auto dest: matchId_length)
next
  case (Cons c cs)
  then show ?case by (fastforce split: if_splits option.splits dest: matchId_length)
qed

lemma matchHere_length:
  assumes "matchHere s = Some (cap, r)"
  shows "length r < length s"
proof -
  from assms obtain u where u: \<open>stripPrefix ''"managedDisk"'' s = Some u\<close>
    by (auto simp: matchHere_def split: option.splits)
  with assms obtain b where b: "colonThen (CHR ''{'') u = Some b" and l: "lastId b = Some (cap, r)"
    by (auto simp: matchHere_def split: option.splits)
  from lastId_length[OF l] colonThen_length[OF b] stripPrefix_length[OF u] show ?thesis
    by simp
qed

text \<open>
  \<^verbatim>\<open>[regex]::Matches\<close>: the text is scanned from the left; after a match the scan goes
  on behind it, otherwise one character further. Every match consumes at least the
  literal, which is what makes the scan end.
\<close>

function Matches :: "string \<Rightarrow> string list" where
  "Matches [] = []"
| "Matches (c # cs) =
     (case matchHere (c # cs) of
        Some (cap, rest) \<Rightarrow> cap # Matches rest
      | None \<Rightarrow> Matches cs)"
  by pat_completeness auto
termination
  by (relation "measure length") (auto dest: matchHere_length)

text \<open>
  A \<^verbatim>\<open>HashSet[string]\<close> is a list without repetitions, in the order of the first
  insertions; \<^verbatim>\<open>.Add\<close> leaves the set alone when the element is there already, and
  \<^verbatim>\<open>.Contains\<close> is membership. Elements are compared exactly (upper and lower case
  differ).
\<close>

definition hsAdd :: "'a \<Rightarrow> 'a list \<Rightarrow> 'a list" where
  "hsAdd x s = (if x \<in> set s then s else s @ [x])"

definition hashSetOf :: "'a list \<Rightarrow> 'a list" where
  "hashSetOf xs = fold hsAdd xs []"

text \<open>The parameter is \<^verbatim>\<open>[string]$json\<close>: a \<^verbatim>\<open>$null\<close> payload arrives as the empty string.\<close>

definition ExtractDiskIdsFromVmJson :: "string \<Rightarrow> string list" where
  "ExtractDiskIdsFromVmJson json =
     (if IsNullOrWhiteSpace json then [] else hashSetOf (Matches json))"

subsection \<open>Activity-Log events\<close>

text \<open>
  One record of \<^verbatim>\<open>Get-AzActivityLog\<close>, with the properties the script reads. Times are
  ticks. \<open>op_PropertiesJson\<close> is \<^verbatim>\<open>$op.Properties | ConvertTo-Json -Depth 12\<close> when the
  event has properties and the conversion succeeds, \<^verbatim>\<open>$null\<close> otherwise. A \<^verbatim>\<open>$null\<close>
  result or resource type equals no literal, as the empty string does, so these two are
  plain strings.
\<close>

record activityEvent =
  op_ResultType :: string
  op_EventTimestamp :: int
  op_ResourceType :: string
  op_ResourceId :: "string option"
  op_ResourceGroupName :: "string option"
  op_OperationNameValue :: "string option"
  op_Caller :: "string option"
  op_CorrelationId :: "string option"
  op_PropertiesJson :: "string option"
  op_StatusMessage :: "string option"

definition GetActivityJson :: "activityEvent \<Rightarrow> string option" where
  "GetActivityJson op =
     (case op_PropertiesJson op of
        Some j \<Rightarrow> Some j
      | None \<Rightarrow>
          (case op_StatusMessage op of
             Some m \<Rightarrow> if m \<noteq> [] then Some m else None
           | None \<Rightarrow> None))"

text \<open>
  What one subscription contributes: whether \<^verbatim>\<open>Set-AzContext\<close> succeeded (on failure
  the loop goes on to the next subscription), and the events of the two
  \<^verbatim>\<open>Get-AzActivityLog\<close> calls, \<open>None\<close> when the call raised (the \<^verbatim>\<open>catch\<close> writes a
  warning and nothing is added).
\<close>

record subscriptionLogs =
  sub_ContextOk :: bool
  sub_DiskLog :: "activityEvent list option"
  sub_VmLog :: "activityEvent list option"

subsection \<open>Disk changes from the Activity Log\<close>

datatype changeType = Created | Updated | Deleted

datatype recordSource = ActivityLog | ARG | ActivityLogVmWrite

text \<open>What \<^verbatim>\<open>Try-Parse-Field\<close> returns: an integer or an unquoted string.\<close>

datatype fieldVal = IntVal int | StrVal string

text \<open>
  The record added to \<^verbatim>\<open>$diskChanges\<close>. The last three members are note properties a
  record may or may not have: \<open>None\<close> is a record without the property, \<open>Some v\<close> one
  whose property holds \<open>v\<close> (which for the size may itself be \<^verbatim>\<open>$null\<close>).
\<close>

record diskChange =
  dc_ChangeType :: changeType
  dc_DiskName :: "string option"
  dc_SubscriptionId :: "string option"
  dc_ResourceGroup :: "string option"
  dc_Location :: "string option"
  dc_EventTime :: int
  dc_Operation :: "string option"
  dc_Caller :: "string option"
  dc_RequestedSizeGB :: "fieldVal option"
  dc_RequestedSku :: "fieldVal option"
  dc_RequestedEnc :: "fieldVal option"
  dc_Source :: recordSource
  dc_ResourceId :: "string option"
  dc_CorrelationId :: "string option"
  dc_CurrentSizeGB :: "int option option"
  dc_CurrentSku :: "string option"
  dc_ManagedBy :: "string option"

text \<open>
  \<^verbatim>\<open>$s -match '/delete$'\<close> and its two siblings: the text ends with the suffix, or with
  the suffix and one line feed, upper and lower case alike.
\<close>

definition endsWith :: "string \<Rightarrow> string \<Rightarrow> bool" where
  "endsWith suf s = (length suf \<le> length s \<and> drop (length s - length suf) s = suf)"

definition matchEnd :: "string \<Rightarrow> string \<Rightarrow> bool" where
  "matchEnd suf s = (endsWith suf (ToLower s) \<or> endsWith (suf @ [CHR 0x0A]) (ToLower s))"

definition changeTypeOf :: "string \<Rightarrow> changeType" where
  "changeTypeOf opNameVal =
     (if matchEnd ''/delete'' opNameVal then Deleted
      else if matchEnd ''/write'' opNameVal then Updated
      else if matchEnd ''/create'' opNameVal then Created
      else Updated)"

text \<open>
  The body of \<^verbatim>\<open>foreach ($op in $logDisks)\<close>. \<^verbatim>\<open>Try-Parse-Field\<close> is the parameter
  \<open>tryParse\<close>: it takes the payload and a field name. \<open>Location\<close> is set from
  \<^verbatim>\<open>$op.ResourceGroupName\<close>.
\<close>

definition diskChangeOf ::
  "(string option \<Rightarrow> string \<Rightarrow> fieldVal option) \<Rightarrow> activityEvent \<Rightarrow> diskChange" where
  "diskChangeOf tryParse op =
     (let ridInfo = ParseResourceId (str (op_ResourceId op));
          json = GetActivityJson op
      in \<lparr>dc_ChangeType = changeTypeOf (str (op_OperationNameValue op)),
          dc_DiskName = rid_Name ridInfo,
          dc_SubscriptionId = rid_SubscriptionId ridInfo,
          dc_ResourceGroup = rid_ResourceGroup ridInfo,
          dc_Location = op_ResourceGroupName op,
          dc_EventTime = op_EventTimestamp op,
          dc_Operation = op_OperationNameValue op,
          dc_Caller = op_Caller op,
          dc_RequestedSizeGB = tryParse json ''diskSizeGB'',
          dc_RequestedSku = tryParse json ''name'',
          dc_RequestedEnc = tryParse json ''encryptionType'',
          dc_Source = ActivityLog,
          dc_ResourceId = op_ResourceId op,
          dc_CorrelationId = op_CorrelationId op,
          dc_CurrentSizeGB = None,
          dc_CurrentSku = None,
          dc_ManagedBy = None\<rparr>)"

text \<open>The \<^verbatim>\<open>Where-Object\<close> filter of the disk log.\<close>

definition isDiskEvent :: "int \<Rightarrow> activityEvent \<Rightarrow> bool" where
  "isDiskEvent StartDate op =
     (strEq (op_ResultType op) ''Success'' \<and> op_EventTimestamp op \<ge> StartDate
      \<and> strEq (op_ResourceType op) ''Microsoft.Compute/disks'')"

definition readDiskChanges ::
  "(string option \<Rightarrow> string \<Rightarrow> fieldVal option) \<Rightarrow> int \<Rightarrow> subscriptionLogs list \<Rightarrow> diskChange list" where
  "readDiskChanges tryParse StartDate subs =
     concat (map (\<lambda>sub.
       if sub_ContextOk sub then
         (case sub_DiskLog sub of
            None \<Rightarrow> []
          | Some logDisks \<Rightarrow> map (diskChangeOf tryParse) (filter (isDiskEvent StartDate) logDisks))
       else []) subs)"

subsection \<open>VM write events and the attach/detach diff\<close>

record vmEvent =
  vm_Time :: int
  vm_DiskIds :: "string list"
  vm_Vm :: "string option"
  vm_SubId :: "string option"
  vm_Rg :: "string option"
  vm_Json :: "string option"
  vm_CorrId :: "string option"

datatype attachType = Attached | Detached

record attachChange =
  ac_ChangeType :: attachType
  ac_VmName :: "string option"
  ac_SubscriptionId :: "string option"
  ac_ResourceGroup :: "string option"
  ac_DiskId :: string
  ac_EventTime :: int
  ac_Source :: recordSource
  ac_CorrelationId :: "string option"

text \<open>
  The \<^verbatim>\<open>Where-Object\<close> filter of the VM log; \<^verbatim>\<open>-like\<close> with a pattern without wildcards
  is equality without regard to case.
\<close>

definition isVmWrite :: "int \<Rightarrow> activityEvent \<Rightarrow> bool" where
  "isVmWrite StartDate op =
     (strEq (op_ResultType op) ''Success'' \<and> op_EventTimestamp op \<ge> StartDate
      \<and> strEq (op_ResourceType op) ''Microsoft.Compute/virtualMachines''
      \<and> strEq (str (op_OperationNameValue op)) ''Microsoft.Compute/virtualMachines/write'')"

definition vmKeyOf :: "ridInfo \<Rightarrow> string" where
  "vmKeyOf ridInfo =
     str (rid_SubscriptionId ridInfo) @ ''|'' @ str (rid_ResourceGroup ridInfo) @ ''|''
       @ str (rid_Name ridInfo)"

definition vmEventOf :: "activityEvent \<Rightarrow> vmEvent" where
  "vmEventOf op =
     (let ridInfo = ParseResourceId (str (op_ResourceId op));
          json = GetActivityJson op;
          diskIds = ExtractDiskIdsFromVmJson (str json)
      in \<lparr>vm_Time = op_EventTimestamp op, vm_DiskIds = diskIds, vm_Vm = rid_Name ridInfo,
          vm_SubId = rid_SubscriptionId ridInfo, vm_Rg = rid_ResourceGroup ridInfo,
          vm_Json = json, vm_CorrId = op_CorrelationId op\<rparr>)"

text \<open>
  \<^verbatim>\<open>$vmEventsByVm\<close> is a hashtable from the VM key to the list of its events; the keys of
  a PowerShell hashtable are compared without regard to case. It is an association list
  here, a new key added at the end. The order in which the script later visits the keys
  is the hashtable's own; the export sorts the records by time.
\<close>

fun addVmEvent :: "string \<Rightarrow> vmEvent \<Rightarrow> (string \<times> vmEvent list) list \<Rightarrow> (string \<times> vmEvent list) list" where
  "addVmEvent key ev [] = [(key, [ev])]"
| "addVmEvent key ev ((k, evs) # tbl) =
     (if strEq k key then (k, evs @ [ev]) # tbl else (k, evs) # addVmEvent key ev tbl)"

definition readVmEvents :: "int \<Rightarrow> subscriptionLogs list \<Rightarrow> (string \<times> vmEvent list) list" where
  "readVmEvents StartDate subs =
     fold (\<lambda>sub tbl.
       if sub_ContextOk sub then
         (case sub_VmLog sub of
            None \<Rightarrow> tbl
          | Some logVms \<Rightarrow>
              fold (\<lambda>op t. addVmEvent (vmKeyOf (ParseResourceId (str (op_ResourceId op)))) (vmEventOf op) t)
                (filter (isVmWrite StartDate) logVms) tbl)
       else tbl) subs []"

text \<open>
  The body of the \<^verbatim>\<open>for\<close> loop: the two disk-id sets are rebuilt, then the ids of the
  current event missing in the previous one give \<open>Attached\<close> records, and the ids of the
  previous event missing in the current one give \<open>Detached\<close> records. A \<open>Detached\<close> record
  takes the VM, subscription and resource group of the previous event, and the time and
  correlation id of the current one.
\<close>

definition diffPair :: "vmEvent \<Rightarrow> vmEvent \<Rightarrow> attachChange list" where
  "diffPair prev cur =
     (let prevIds = hashSetOf (vm_DiskIds prev);
          currIds = hashSetOf (vm_DiskIds cur)
      in map (\<lambda>id. \<lparr>ac_ChangeType = Attached, ac_VmName = vm_Vm cur,
                      ac_SubscriptionId = vm_SubId cur, ac_ResourceGroup = vm_Rg cur,
                      ac_DiskId = id, ac_EventTime = vm_Time cur,
                      ac_Source = ActivityLogVmWrite, ac_CorrelationId = vm_CorrId cur\<rparr>)
           (filter (\<lambda>id. id \<notin> set prevIds) currIds)
         @ map (\<lambda>id. \<lparr>ac_ChangeType = Detached, ac_VmName = vm_Vm prev,
                        ac_SubscriptionId = vm_SubId prev, ac_ResourceGroup = vm_Rg prev,
                        ac_DiskId = id, ac_EventTime = vm_Time cur,
                        ac_Source = ActivityLogVmWrite, ac_CorrelationId = vm_CorrId cur\<rparr>)
             (filter (\<lambda>id. id \<notin> set currIds) prevIds))"

text \<open>\<^verbatim>\<open>for ($i = 1; $i -lt $seq.Count; $i++)\<close> over the adjacent pairs of the sequence.\<close>

fun diffSeq :: "vmEvent list \<Rightarrow> attachChange list" where
  "diffSeq (prev # cur # rest) = diffPair prev cur @ diffSeq (cur # rest)"
| "diffSeq seq = []"

text \<open>
  \<^verbatim>\<open>Sort-Object Time\<close>, as a stable sort by the key. For each VM key the sorted
  sequence is diffed.
\<close>

definition DeriveAttachChanges :: "(string \<times> vmEvent list) list \<Rightarrow> attachChange list" where
  "DeriveAttachChanges vmEventsByVm =
     concat (map (\<lambda>(key, evs). diffSeq (sort_key vm_Time evs)) vmEventsByVm)"

subsection \<open>ARG enrichment and the new disks of ARG\<close>

text \<open>The rows of the two Resource Graph queries, as their \<^verbatim>\<open>project\<close> clauses give them.\<close>

record newDiskRow =
  nd_name :: string
  nd_subscriptionId :: string
  nd_resourceGroup :: string
  nd_location :: string
  nd_timeCreated :: int
  nd_diskSizeGB :: "int option"
  nd_sku :: string
  nd_osType :: string
  nd_managedBy :: string
  nd_encryption :: string

record diskMetaRow =
  dm_diskName :: string
  dm_subscriptionId :: string
  dm_resourceGroup :: string
  dm_location :: string
  dm_managedBy :: string
  dm_diskSizeGB :: "int option"
  dm_sku :: string

text \<open>
  \<^verbatim>\<open>$indexDisk\<close>: a hashtable keyed by the lowered key; a later row with the same key
  replaces an earlier one. The variable \<^verbatim>\<open>$key\<close> is shared by the loops of the script,
  so the loop returns it too.
\<close>

definition metaKey :: "diskMetaRow \<Rightarrow> string" where
  "metaKey m =
     ToLower (dm_subscriptionId m) @ ''|'' @ ToLower (dm_resourceGroup m) @ ''|''
       @ ToLower (dm_diskName m)"

fun buildIndex ::
  "diskMetaRow list \<Rightarrow> (string \<rightharpoonup> diskMetaRow) \<times> string option
     \<Rightarrow> (string \<rightharpoonup> diskMetaRow) \<times> string option" where
  "buildIndex [] (indexDisk, key) = (indexDisk, key)"
| "buildIndex (m # ms) (indexDisk, key) =
     buildIndex ms (indexDisk(metaKey m \<mapsto> m), Some (metaKey m))"

text \<open>
  \<^verbatim>\<open>-not $row.PSObject.Properties.Match('CurrentSizeGB')\<close>: \<^verbatim>\<open>Match\<close> returns the
  collection of the record's properties of that name, one property or none. A collection
  holding a property converts to true, so the guard is false and the property is left
  alone. What the empty collection converts to is decided by the PowerShell runtime, not
  by the script; \<open>emptyIsTrue\<close> is that Boolean (when it is false, a record without
  the property gets it).
\<close>

definition notMatch :: "bool \<Rightarrow> 'a option \<Rightarrow> bool" where
  "notMatch emptyIsTrue property =
     (case property of None \<Rightarrow> \<not> emptyIsTrue | Some v \<Rightarrow> False)"

text \<open>
  The body of \<^verbatim>\<open>foreach ($row in $diskChanges)\<close> of the enrichment block. Calling
  \<^verbatim>\<open>.ToLower()\<close> on \<^verbatim>\<open>$null\<close> ends the assignment with an error and the script goes on
  with the next statement, so for a row with a null key part \<^verbatim>\<open>$key\<close> keeps the value
  it had. \<^verbatim>\<open>ContainsKey($null)\<close> raises as well, which skips the \<^verbatim>\<open>if\<close>. The lookup
  compares keys without regard to case, and the keys stored are lowered.
\<close>

definition rowKey :: "diskChange \<Rightarrow> string option \<Rightarrow> string option" where
  "rowKey row key =
     (case (dc_SubscriptionId row, dc_ResourceGroup row, dc_DiskName row) of
        (Some s, Some g, Some n) \<Rightarrow> Some (ToLower s @ ''|'' @ ToLower g @ ''|'' @ ToLower n)
      | _ \<Rightarrow> key)"

definition lookupMeta :: "(string \<rightharpoonup> diskMetaRow) \<Rightarrow> string option \<Rightarrow> diskMetaRow option" where
  "lookupMeta indexDisk key = (case key of None \<Rightarrow> None | Some k \<Rightarrow> indexDisk (ToLower k))"

definition enrichRow :: "bool \<Rightarrow> (string \<rightharpoonup> diskMetaRow) \<Rightarrow> string option \<Rightarrow> diskChange \<Rightarrow> diskChange" where
  "enrichRow emptyIsTrue indexDisk key row =
     (case lookupMeta indexDisk key of
        None \<Rightarrow> row
      | Some meta \<Rightarrow>
          (let row1 = row\<lparr>dc_Location := Some (dm_location meta)\<rparr>;
               row2 = (if notMatch emptyIsTrue (dc_CurrentSizeGB row1)
                       then row1\<lparr>dc_CurrentSizeGB := Some (dm_diskSizeGB meta)\<rparr> else row1);
               row3 = (if notMatch emptyIsTrue (dc_CurrentSku row2)
                       then row2\<lparr>dc_CurrentSku := Some (dm_sku meta)\<rparr> else row2);
               row4 = (if notMatch emptyIsTrue (dc_ManagedBy row3)
                       then row3\<lparr>dc_ManagedBy := Some (dm_managedBy meta)\<rparr> else row3)
           in row4))"

fun enrichRows ::
  "bool \<Rightarrow> (string \<rightharpoonup> diskMetaRow) \<Rightarrow> string option \<Rightarrow> diskChange list \<Rightarrow> diskChange list" where
  "enrichRows emptyIsTrue indexDisk key [] = []"
| "enrichRows emptyIsTrue indexDisk key (row # rows) =
     enrichRow emptyIsTrue indexDisk (rowKey row key) row
       # enrichRows emptyIsTrue indexDisk (rowKey row key) rows"

text \<open>
  The enrichment block. \<open>key0\<close> is the value \<^verbatim>\<open>$key\<close> has when the block starts: the
  VM key the attach/detach loop visited last, \<^verbatim>\<open>$null\<close> when there was none.
\<close>

definition ArgEnrichment ::
  "bool \<Rightarrow> string option \<Rightarrow> diskMetaRow list \<Rightarrow> diskChange list \<Rightarrow> diskChange list" where
  "ArgEnrichment emptyIsTrue key0 diskMeta diskChanges =
     (case buildIndex diskMeta (Map.empty, key0) of
        (indexDisk, key) \<Rightarrow> enrichRows emptyIsTrue indexDisk key diskChanges)"

text \<open>
  The \<^verbatim>\<open>Where-Object\<close> block of the integration loop: \<^verbatim>\<open>-eq\<close> on the three key parts.
\<close>

definition sameDisk :: "newDiskRow \<Rightarrow> diskChange \<Rightarrow> bool" where
  "sameDisk d r =
     (dc_ChangeType r = Created
      \<and> psEq (dc_SubscriptionId r) (nd_subscriptionId d)
      \<and> psEq (dc_ResourceGroup r) (nd_resourceGroup d)
      \<and> psEq (dc_DiskName r) (nd_name d))"

definition argDiskChange :: "newDiskRow \<Rightarrow> diskChange" where
  "argDiskChange d =
     \<lparr>dc_ChangeType = Created,
      dc_DiskName = Some (nd_name d),
      dc_SubscriptionId = Some (nd_subscriptionId d),
      dc_ResourceGroup = Some (nd_resourceGroup d),
      dc_Location = Some (nd_location d),
      dc_EventTime = nd_timeCreated d,
      dc_Operation = Some ''ARG: timeCreated'',
      dc_Caller = None,
      dc_RequestedSizeGB = map_option IntVal (nd_diskSizeGB d),
      dc_RequestedSku = Some (StrVal (nd_sku d)),
      dc_RequestedEnc = Some (StrVal (nd_encryption d)),
      dc_Source = ARG,
      dc_ResourceId = None,
      dc_CorrelationId = None,
      dc_CurrentSizeGB = None,
      dc_CurrentSku = None,
      dc_ManagedBy = Some (nd_managedBy d)\<rparr>"

text \<open>
  \<^verbatim>\<open>foreach ($d in $newDisksArg)\<close>: the filter runs over the list as it is at that
  moment, the records added for earlier rows included.
\<close>

fun IntegrateArgNewDisks :: "newDiskRow list \<Rightarrow> diskChange list \<Rightarrow> diskChange list" where
  "IntegrateArgNewDisks [] diskChanges = diskChanges"
| "IntegrateArgNewDisks (d # ds) diskChanges =
     IntegrateArgNewDisks ds
       (if filter (sameDisk d) diskChanges = [] then diskChanges @ [argDiskChange d]
        else diskChanges)"

subsection \<open>The script\<close>

text \<open>
  The steps in the order of the script: the disk changes and the VM events are read, the
  attach/detach records derived, the disk changes enriched from ARG, the new disks of
  ARG integrated, and both lists sorted by event time for the export. \<open>arg\<close> is \<open>None\<close>
  when \<^verbatim>\<open>Az.ResourceGraph\<close> is not available, else the results of the two queries
  (\<^verbatim>\<open>$newDisksArg\<close> and \<^verbatim>\<open>$diskMeta\<close>).
\<close>

definition GetChangedDisksSince ::
  "(string option \<Rightarrow> string \<Rightarrow> fieldVal option) \<Rightarrow> bool \<Rightarrow> string option \<Rightarrow> int
     \<Rightarrow> subscriptionLogs list \<Rightarrow> (newDiskRow list \<times> diskMetaRow list) option
     \<Rightarrow> diskChange list \<times> attachChange list" where
  "GetChangedDisksSince tryParse emptyIsTrue key0 StartDate subs arg =
     (let newDisksArg = (case arg of None \<Rightarrow> [] | Some (newDisks, diskMeta) \<Rightarrow> newDisks);
          diskChanges = readDiskChanges tryParse StartDate subs;
          attachChanges = DeriveAttachChanges (readVmEvents StartDate subs);
          enriched = (case arg of
                        None \<Rightarrow> diskChanges
                      | Some (newDisks, diskMeta) \<Rightarrow>
                          ArgEnrichment emptyIsTrue key0 diskMeta diskChanges);
          integrated = IntegrateArgNewDisks newDisksArg enriched
      in (sort_key dc_EventTime integrated, sort_key ac_EventTime attachChanges))"

section \<open>Properties\<close>

subsection \<open>Helper facts\<close>

lemma length_splitOn: "length (splitOn c s) = Suc (length (filter (\<lambda>x. x = c) s))"
  by (induction s) (auto split: list.splits)

subsection \<open>Resource Identifier Parser\<close>

text \<open>
  Claim C9, as the code has it. The parser is a total function with no error result: the
  only partial operation, indexing the pieces, reads \<^verbatim>\<open>$null\<close> past the end. For an
  empty or all-white-space string, and for every string with fewer than three
  slash-delimited pieces, all five fields are null. A string with three or more pieces
  has its fields filled by position, whatever the pieces are.
\<close>

theorem ParseResourceId_short_all_null:
  "(IsNullOrWhiteSpace rid \<or> length (splitOn (CHR ''/'') rid) < 3 \<longrightarrow>
      ParseResourceId rid = ridNull)
   \<and> ParseResourceId [] = ridNull
   \<and> (\<not> IsNullOrWhiteSpace rid \<and> 3 \<le> length (splitOn (CHR ''/'') rid) \<longrightarrow>
      rid_SubscriptionId (ParseResourceId rid) = Some (splitOn (CHR ''/'') rid ! 2))"
  by (auto simp: ParseResourceId_def IsNullOrWhiteSpace_def idx_def Let_def)

theorem ParseResourceId_short_all_null_witness:
  "length (splitOn (CHR ''/'') ''/subscriptions'') < 3
   \<and> ParseResourceId ''/subscriptions'' = ridNull
   \<and> \<not> IsNullOrWhiteSpace ''/subscriptions/s1''
   \<and> 3 \<le> length (splitOn (CHR ''/'') ''/subscriptions/s1'')
   \<and> rid_SubscriptionId (ParseResourceId ''/subscriptions/s1'') = Some ''s1''"
  using ParseResourceId_short_all_null [of "''/subscriptions''"]
    ParseResourceId_short_all_null [of "''/subscriptions/s1''"]
  by (simp add: IsNullOrWhiteSpace_def isWhiteSpace_def)

text \<open>
  Claim C9, as the spec states it, fails for malformed input in general: the string
  \<^verbatim>\<open>a/b/c\<close> is no resource path, yet its third piece is returned as the subscription.
\<close>

theorem ParseResourceId_malformed_counterexample:
  "ParseResourceId ''a/b/c'' =
     \<lparr>rid_SubscriptionId = Some ''c'', rid_ResourceGroup = None, rid_Provider = None,
      rid_Type = None, rid_Name = None\<rparr>"
  by (simp add: ParseResourceId_def IsNullOrWhiteSpace_def isWhiteSpace_def idx_def ridNull_def)

subsection \<open>Graph Query Client\<close>




subsection \<open>Disk-reference extraction\<close>










lemma fold_hsAdd: "distinct acc \<Longrightarrow> distinct (fold hsAdd xs acc) \<and> set (fold hsAdd xs acc) = set acc \<union> set xs"
  by (induction xs arbitrary: acc) (auto simp: hsAdd_def)

lemma hashSetOf_set: "set (hashSetOf xs) = set xs" and hashSetOf_distinct: "distinct (hashSetOf xs)"
  using fold_hsAdd[of "[]" xs] by (simp_all add: hashSetOf_def)





subsection \<open>Attachment Diff Engine\<close>

lemma filter_eq_distinct:
  "distinct xs \<Longrightarrow> filter (\<lambda>x. x = d \<and> P x) xs = (if d \<in> set xs \<and> P d then [d] else [])"
  by (induction xs) auto

lemma diffPair_Detached:
  "filter (\<lambda>r. ac_ChangeType r = Detached \<and> ac_DiskId r = d) (diffPair prev cur) =
     (if d \<in> set (vm_DiskIds prev) \<and> d \<notin> set (vm_DiskIds cur)
      then [\<lparr>ac_ChangeType = Detached, ac_VmName = vm_Vm prev,
             ac_SubscriptionId = vm_SubId prev, ac_ResourceGroup = vm_Rg prev,
             ac_DiskId = d, ac_EventTime = vm_Time cur,
             ac_Source = ActivityLogVmWrite, ac_CorrelationId = vm_CorrId cur\<rparr>]
      else [])"
proof -
  have "filter (\<lambda>x. x = d \<and> x \<notin> set (vm_DiskIds cur)) (hashSetOf (vm_DiskIds prev)) =
      (if d \<in> set (vm_DiskIds prev) \<and> d \<notin> set (vm_DiskIds cur) then [d] else [])"
    using filter_eq_distinct[OF hashSetOf_distinct, of d "\<lambda>x. x \<notin> set (vm_DiskIds cur)" "vm_DiskIds prev"]
    by (simp add: hashSetOf_set)
  then show ?thesis
    by (simp add: diffPair_def Let_def filter_map comp_def hashSetOf_set conj_commute)
qed

lemma diffSeq_nth:
  "Suc i < length seq \<Longrightarrow> set (diffPair (seq ! i) (seq ! Suc i)) \<subseteq> set (diffSeq seq)"
proof (induction seq arbitrary: i rule: diffSeq.induct)
  case (1 prev cur rest)
  show ?case
  proof (cases i)
    case 0
    then show ?thesis by simp
  next
    case (Suc j)
    with 1 show ?thesis by auto
  qed
qed simp_all

lemma DeriveAttachChanges_group:
  "(key, evs) \<in> set vmEventsByVm \<Longrightarrow>
     set (diffSeq (sort_key vm_Time evs)) \<subseteq> set (DeriveAttachChanges vmEventsByVm)"
  by (force simp: DeriveAttachChanges_def)

text \<open>
  Claim C4. Take the events of one VM key, sorted by time, and two neighbours of the
  sorted sequence, at positions \<open>i\<close> and \<open>i + 1\<close>. For a disk id of the earlier event that
  the later one lacks, the diff of the pair holds exactly one \<open>Detached\<close> record for the
  id: its time and correlation id are the later event's, its VM name, subscription and
  resource group the earlier event's. The record is among the attach/detach records the
  engine derives.
\<close>

theorem Detached_record_of_adjacent_pair:
  assumes "(key, evs) \<in> set vmEventsByVm"
    and "Suc i < length (sort_key vm_Time evs)"
    and "d \<in> set (vm_DiskIds (sort_key vm_Time evs ! i))"
    and "d \<notin> set (vm_DiskIds (sort_key vm_Time evs ! Suc i))"
  shows "filter (\<lambda>r. ac_ChangeType r = Detached \<and> ac_DiskId r = d)
           (diffPair (sort_key vm_Time evs ! i) (sort_key vm_Time evs ! Suc i)) =
         [\<lparr>ac_ChangeType = Detached, ac_VmName = vm_Vm (sort_key vm_Time evs ! i),
           ac_SubscriptionId = vm_SubId (sort_key vm_Time evs ! i),
           ac_ResourceGroup = vm_Rg (sort_key vm_Time evs ! i),
           ac_DiskId = d, ac_EventTime = vm_Time (sort_key vm_Time evs ! Suc i),
           ac_Source = ActivityLogVmWrite,
           ac_CorrelationId = vm_CorrId (sort_key vm_Time evs ! Suc i)\<rparr>]
       \<and> \<lparr>ac_ChangeType = Detached, ac_VmName = vm_Vm (sort_key vm_Time evs ! i),
           ac_SubscriptionId = vm_SubId (sort_key vm_Time evs ! i),
           ac_ResourceGroup = vm_Rg (sort_key vm_Time evs ! i),
           ac_DiskId = d, ac_EventTime = vm_Time (sort_key vm_Time evs ! Suc i),
           ac_Source = ActivityLogVmWrite,
           ac_CorrelationId = vm_CorrId (sort_key vm_Time evs ! Suc i)\<rparr>
          \<in> set (DeriveAttachChanges vmEventsByVm)"
proof -
  let ?seq = "sort_key vm_Time evs"
  let ?R = "\<lparr>ac_ChangeType = Detached, ac_VmName = vm_Vm (?seq ! i),
           ac_SubscriptionId = vm_SubId (?seq ! i),
           ac_ResourceGroup = vm_Rg (?seq ! i),
           ac_DiskId = d, ac_EventTime = vm_Time (?seq ! Suc i),
           ac_Source = ActivityLogVmWrite,
           ac_CorrelationId = vm_CorrId (?seq ! Suc i)\<rparr>"
  have f: "filter (\<lambda>r. ac_ChangeType r = Detached \<and> ac_DiskId r = d)
           (diffPair (?seq ! i) (?seq ! Suc i)) = [?R]"
    using assms(3,4) by (simp add: diffPair_Detached)
  then have "?R \<in> set (filter (\<lambda>r. ac_ChangeType r = Detached \<and> ac_DiskId r = d)
           (diffPair (?seq ! i) (?seq ! Suc i)))" by simp
  then have "?R \<in> set (diffPair (?seq ! i) (?seq ! Suc i))" by simp
  with diffSeq_nth[OF assms(2)] DeriveAttachChanges_group[OF assms(1)]
  have "?R \<in> set (DeriveAttachChanges vmEventsByVm)" by blast
  with f show ?thesis by simp
qed

theorem Detached_record_of_adjacent_pair_witness:
  "(let e1 = \<lparr>vm_Time = 10, vm_DiskIds = [''A'', ''B''], vm_Vm = Some ''vm-old'',
               vm_SubId = Some ''s1'', vm_Rg = Some ''rg1'', vm_Json = None,
               vm_CorrId = Some ''c1''\<rparr>;
        e2 = \<lparr>vm_Time = 20, vm_DiskIds = [''B''], vm_Vm = Some ''VM-OLD'',
               vm_SubId = Some ''S1'', vm_Rg = Some ''RG1'', vm_Json = None,
               vm_CorrId = Some ''c2''\<rparr>;
        r = \<lparr>ac_ChangeType = Detached, ac_VmName = Some ''vm-old'',
              ac_SubscriptionId = Some ''s1'', ac_ResourceGroup = Some ''rg1'',
              ac_DiskId = ''A'', ac_EventTime = 20, ac_Source = ActivityLogVmWrite,
              ac_CorrelationId = Some ''c2''\<rparr>
    in filter (\<lambda>r. ac_ChangeType r = Detached \<and> ac_DiskId r = ''A'') (diffPair e1 e2) = [r]
       \<and> r \<in> set (DeriveAttachChanges [(''s1|rg1|vm-old'', [e2, e1])]))"
  using Detached_record_of_adjacent_pair
    [of "''s1|rg1|vm-old''"
        "[\<lparr>vm_Time = 20, vm_DiskIds = [''B''], vm_Vm = Some ''VM-OLD'',
               vm_SubId = Some ''S1'', vm_Rg = Some ''RG1'', vm_Json = None,
               vm_CorrId = Some ''c2''\<rparr>,
          \<lparr>vm_Time = 10, vm_DiskIds = [''A'', ''B''], vm_Vm = Some ''vm-old'',
               vm_SubId = Some ''s1'', vm_Rg = Some ''rg1'', vm_Json = None,
               vm_CorrId = Some ''c1''\<rparr>]"
        "[(''s1|rg1|vm-old'',
          [\<lparr>vm_Time = 20, vm_DiskIds = [''B''], vm_Vm = Some ''VM-OLD'',
               vm_SubId = Some ''S1'', vm_Rg = Some ''RG1'', vm_Json = None,
               vm_CorrId = Some ''c2''\<rparr>,
          \<lparr>vm_Time = 10, vm_DiskIds = [''A'', ''B''], vm_Vm = Some ''vm-old'',
               vm_SubId = Some ''s1'', vm_Rg = Some ''rg1'', vm_Json = None,
               vm_CorrId = Some ''c1''\<rparr>])]"
        0 "''A''"]
  by (simp add: Let_def)

text \<open>
  Claim C6. A VM whose two events hold the disks A, B (earlier) and B, C (later), in
  either order of arrival, gives exactly two records: \<open>Attached\<close> for C and \<open>Detached\<close>
  for A, both at the later time, and none for B.
\<close>

theorem diff_two_snapshots:
  assumes "vm_DiskIds s1 = [A, B]" "vm_DiskIds s2 = [B, C]" "vm_Time s1 < vm_Time s2"
    "distinct [A, B, C]"
  shows "DeriveAttachChanges [(key, [s1, s2])] =
      [\<lparr>ac_ChangeType = Attached, ac_VmName = vm_Vm s2, ac_SubscriptionId = vm_SubId s2,
        ac_ResourceGroup = vm_Rg s2, ac_DiskId = C, ac_EventTime = vm_Time s2,
        ac_Source = ActivityLogVmWrite, ac_CorrelationId = vm_CorrId s2\<rparr>,
       \<lparr>ac_ChangeType = Detached, ac_VmName = vm_Vm s1, ac_SubscriptionId = vm_SubId s1,
        ac_ResourceGroup = vm_Rg s1, ac_DiskId = A, ac_EventTime = vm_Time s2,
        ac_Source = ActivityLogVmWrite, ac_CorrelationId = vm_CorrId s2\<rparr>]
    \<and> DeriveAttachChanges [(key, [s2, s1])] = DeriveAttachChanges [(key, [s1, s2])]"
  using assms
  by (auto simp: DeriveAttachChanges_def diffPair_def hashSetOf_def hsAdd_def Let_def)

theorem diff_two_snapshots_witness:
  "(let s1 = \<lparr>vm_Time = 10, vm_DiskIds = [''A'', ''B''], vm_Vm = Some ''vm1'',
               vm_SubId = Some ''s1'', vm_Rg = Some ''rg1'', vm_Json = None,
               vm_CorrId = Some ''c1''\<rparr>;
        s2 = \<lparr>vm_Time = 20, vm_DiskIds = [''B'', ''C''], vm_Vm = Some ''vm1'',
               vm_SubId = Some ''s1'', vm_Rg = Some ''rg1'', vm_Json = None,
               vm_CorrId = Some ''c2''\<rparr>
    in DeriveAttachChanges [(''s1|rg1|vm1'', [s1, s2])] =
        [\<lparr>ac_ChangeType = Attached, ac_VmName = Some ''vm1'', ac_SubscriptionId = Some ''s1'',
          ac_ResourceGroup = Some ''rg1'', ac_DiskId = ''C'', ac_EventTime = 20,
          ac_Source = ActivityLogVmWrite, ac_CorrelationId = Some ''c2''\<rparr>,
         \<lparr>ac_ChangeType = Detached, ac_VmName = Some ''vm1'', ac_SubscriptionId = Some ''s1'',
          ac_ResourceGroup = Some ''rg1'', ac_DiskId = ''A'', ac_EventTime = 20,
          ac_Source = ActivityLogVmWrite, ac_CorrelationId = Some ''c2''\<rparr>])"
  using diff_two_snapshots
    [of "\<lparr>vm_Time = 10, vm_DiskIds = [''A'', ''B''], vm_Vm = Some ''vm1'',
               vm_SubId = Some ''s1'', vm_Rg = Some ''rg1'', vm_Json = None,
               vm_CorrId = Some ''c1''\<rparr>" "''A''" "''B''"
        "\<lparr>vm_Time = 20, vm_DiskIds = [''B'', ''C''], vm_Vm = Some ''vm1'',
               vm_SubId = Some ''s1'', vm_Rg = Some ''rg1'', vm_Json = None,
               vm_CorrId = Some ''c2''\<rparr>" "''C''" "''s1|rg1|vm1''"]
  by (simp add: Let_def)

text \<open>
  Claim C7. A VM key with exactly one event gives no record: its sequence has no pair, and
  the records derived are those of the other keys.
\<close>

theorem single_snapshot_no_records:
  "length evs = 1 \<Longrightarrow>
     diffSeq (sort_key vm_Time evs) = []
     \<and> DeriveAttachChanges (t1 @ [(key, evs)] @ t2) = DeriveAttachChanges (t1 @ t2)"
  by (cases evs) (auto simp: DeriveAttachChanges_def)

theorem single_snapshot_no_records_witness:
  "DeriveAttachChanges
     [(''s1|rg1|vm1'',
       [\<lparr>vm_Time = 10, vm_DiskIds = [''A'', ''B''], vm_Vm = Some ''vm1'',
         vm_SubId = Some ''s1'', vm_Rg = Some ''rg1'', vm_Json = None,
         vm_CorrId = Some ''c1''\<rparr>])] = []"
  using single_snapshot_no_records
    [of "[\<lparr>vm_Time = 10, vm_DiskIds = [''A'', ''B''], vm_Vm = Some ''vm1'',
         vm_SubId = Some ''s1'', vm_Rg = Some ''rg1'', vm_Json = None,
         vm_CorrId = Some ''c1''\<rparr>]" "[]" "''s1|rg1|vm1''" "[]"]
  by (simp add: DeriveAttachChanges_def)

subsection \<open>Disk Change Aggregator\<close>

lemma enrichRow_frame:
  "(enrichRow b indexDisk key row)\<lparr>dc_Location := dc_Location row,
      dc_CurrentSizeGB := dc_CurrentSizeGB row, dc_CurrentSku := dc_CurrentSku row,
      dc_ManagedBy := dc_ManagedBy row\<rparr> = row"
  by (simp add: enrichRow_def Let_def split: option.splits)

lemma enrichRow_keys:
  "dc_ChangeType (enrichRow b indexDisk key row) = dc_ChangeType row"
  "dc_SubscriptionId (enrichRow b indexDisk key row) = dc_SubscriptionId row"
  "dc_ResourceGroup (enrichRow b indexDisk key row) = dc_ResourceGroup row"
  "dc_DiskName (enrichRow b indexDisk key row) = dc_DiskName row"
  "dc_Source (enrichRow b indexDisk key row) = dc_Source row"
  by (simp_all add: enrichRow_def Let_def split: option.splits)

lemma enrichRow_keeps:
  "dc_CurrentSizeGB row \<noteq> None \<Longrightarrow> dc_CurrentSizeGB (enrichRow b indexDisk key row) = dc_CurrentSizeGB row"
  "dc_CurrentSku row \<noteq> None \<Longrightarrow> dc_CurrentSku (enrichRow b indexDisk key row) = dc_CurrentSku row"
  "dc_ManagedBy row \<noteq> None \<Longrightarrow> dc_ManagedBy (enrichRow b indexDisk key row) = dc_ManagedBy row"
  by (auto simp: enrichRow_def Let_def notMatch_def split: option.splits)

lemma enrichRow_location:
  "dc_Location (enrichRow b indexDisk key row) =
     (case lookupMeta indexDisk key of None \<Rightarrow> dc_Location row | Some meta \<Rightarrow> Some (dm_location meta))"
  by (simp add: enrichRow_def Let_def split: option.splits)

lemma enrichRows_all2:
  "(\<And>key row. P row (enrichRow b indexDisk key row)) \<Longrightarrow>
     list_all2 P rows (enrichRows b indexDisk key rows)"
  by (induction rows arbitrary: key) auto

lemma enrichRows_set:
  "r' \<in> set (enrichRows b indexDisk key rows) \<Longrightarrow>
     \<exists>r\<in>set rows. \<exists>k. r' = enrichRow b indexDisk k r"
  by (induction rows arbitrary: key) auto


lemma buildIndex_range:
  "buildIndex ms (indexDisk, key) = (indexDisk', key') \<Longrightarrow> indexDisk' k = Some m \<Longrightarrow>
     m \<in> set ms \<or> indexDisk k = Some m"
proof (induction ms arbitrary: indexDisk key)
  case Nil
  then show ?case by simp
next
  case (Cons a ms)
  from Cons.prems(1) have "buildIndex ms (indexDisk(metaKey a \<mapsto> a), Some (metaKey a)) = (indexDisk', key')"
    by simp
  from Cons.IH[OF this Cons.prems(2)] show ?case
    by (auto split: if_splits)
qed

lemma ArgEnrichment_set:
  assumes "r' \<in> set (ArgEnrichment b key0 diskMeta rows)"
  shows "\<exists>r\<in>set rows. \<exists>indexDisk k. r' = enrichRow b indexDisk k r
           \<and> (\<forall>key m. indexDisk key = Some m \<longrightarrow> m \<in> set diskMeta)"
proof -
  obtain indexDisk key where bi: "buildIndex diskMeta (Map.empty, key0) = (indexDisk, key)"
    by (cases "buildIndex diskMeta (Map.empty, key0)")
  with assms have "r' \<in> set (enrichRows b indexDisk key rows)"
    by (simp add: ArgEnrichment_def)
  then obtain r k where "r \<in> set rows" "r' = enrichRow b indexDisk k r"
    by (blast dest: enrichRows_set)
  moreover have "\<forall>key m. indexDisk key = Some m \<longrightarrow> m \<in> set diskMeta"
    using buildIndex_range[OF bi] by auto
  ultimately show ?thesis by blast
qed

lemma IntegrateArgNewDisks_appends:
  "\<exists>added. IntegrateArgNewDisks ds rows = rows @ added \<and> set added \<subseteq> argDiskChange ` set ds"
proof (induction ds arbitrary: rows)
  case Nil
  then show ?case by simp
next
  case (Cons d ds)
  let ?rows' = "if filter (sameDisk d) rows = [] then rows @ [argDiskChange d] else rows"
  from Cons[of ?rows'] obtain added where a: "IntegrateArgNewDisks ds ?rows' = ?rows' @ added"
    "set added \<subseteq> argDiskChange ` set ds" by blast
  show ?case
  proof (cases "filter (sameDisk d) rows = []")
    case True
    with a have "IntegrateArgNewDisks (d # ds) rows = rows @ (argDiskChange d # added)"
      "set (argDiskChange d # added) \<subseteq> argDiskChange ` set (d # ds)" by auto
    then show ?thesis by blast
  next
    case False
    with a have "IntegrateArgNewDisks (d # ds) rows = rows @ added"
      "set added \<subseteq> argDiskChange ` set (d # ds)" by auto
    then show ?thesis by blast
  qed
qed

lemma readDiskChanges_set:
  assumes "r \<in> set (readDiskChanges tryParse StartDate subs)"
  shows "\<exists>sub\<in>set subs. \<exists>logDisks. sub_DiskLog sub = Some logDisks \<and>
       (\<exists>op\<in>set logDisks. r = diskChangeOf tryParse op)"
proof -
  from assms obtain sub where s: "sub \<in> set subs"
    "r \<in> set (if sub_ContextOk sub then
         (case sub_DiskLog sub of
            None \<Rightarrow> []
          | Some logDisks \<Rightarrow> map (diskChangeOf tryParse) (filter (isDiskEvent StartDate) logDisks))
       else [])"
    unfolding readDiskChanges_def set_concat set_map by blast
  show ?thesis
  proof (cases "sub_DiskLog sub")
    case None
    with s show ?thesis by (cases "sub_ContextOk sub") simp_all
  next
    case (Some logDisks)
    with s have "r \<in> set (map (diskChangeOf tryParse) (filter (isDiskEvent StartDate) logDisks))"
      by (cases "sub_ContextOk sub") simp_all
    then obtain op where "op \<in> set logDisks" "r = diskChangeOf tryParse op" by auto
    with s(1) Some show ?thesis by blast
  qed
qed

lemma diskChangeOf_fields:
  "dc_Location (diskChangeOf tryParse op) = op_ResourceGroupName op"
  "dc_Source (diskChangeOf tryParse op) = ActivityLog"
  by (simp_all add: diskChangeOf_def Let_def)



text \<open>
  Claim C1, as the code has it. The script classifies the Activity-Log records, then
  enriches them, and only then integrates the new disks of ARG: the final list is the
  enriched Activity-Log records followed by the records added for ARG rows, sorted by
  event time. A record with source ARG in the final list is the record built from its
  ARG row, untouched by the enrichment: its location and managed-by are the row's own,
  and it has neither a current size nor a current SKU.
\<close>

theorem backfill_after_enrichment:
  "(\<exists>added. set added \<subseteq> argDiskChange ` set newDisks
      \<and> fst (GetChangedDisksSince tryParse emptyIsTrue key0 StartDate subs (Some (newDisks, diskMeta)))
          = sort_key dc_EventTime
              (ArgEnrichment emptyIsTrue key0 diskMeta (readDiskChanges tryParse StartDate subs)
                 @ added))
   \<and> (\<forall>r\<in>set (fst (GetChangedDisksSince tryParse emptyIsTrue key0 StartDate subs
                        (Some (newDisks, diskMeta)))).
        dc_Source r = ARG \<longrightarrow>
          (\<exists>d\<in>set newDisks. r = argDiskChange d \<and> dc_Location r = Some (nd_location d)
              \<and> dc_ManagedBy r = Some (nd_managedBy d)
              \<and> dc_CurrentSizeGB r = None \<and> dc_CurrentSku r = None))"
proof -
  let ?rows = "readDiskChanges tryParse StartDate subs"
  let ?enriched = "ArgEnrichment emptyIsTrue key0 diskMeta ?rows"
  obtain added where a: "IntegrateArgNewDisks newDisks ?enriched = ?enriched @ added"
    "set added \<subseteq> argDiskChange ` set newDisks"
    using IntegrateArgNewDisks_appends by blast
  have fin: "fst (GetChangedDisksSince tryParse emptyIsTrue key0 StartDate subs (Some (newDisks, diskMeta)))
      = sort_key dc_EventTime (?enriched @ added)"
    by (simp add: GetChangedDisksSince_def Let_def a(1))
  have src: "dc_Source r = ActivityLog" if "r \<in> set ?enriched" for r
  proof -
    from ArgEnrichment_set[OF that] obtain r0 indexDisk k where
      "r0 \<in> set ?rows" "r = enrichRow emptyIsTrue indexDisk k r0" by blast
    moreover from this(1) have "dc_Source r0 = ActivityLog"
      by (auto dest!: readDiskChanges_set simp: diskChangeOf_fields)
    ultimately show ?thesis by (simp add: enrichRow_keys)
  qed
  have "\<exists>d\<in>set newDisks. r = argDiskChange d \<and> dc_Location r = Some (nd_location d)
              \<and> dc_ManagedBy r = Some (nd_managedBy d)
              \<and> dc_CurrentSizeGB r = None \<and> dc_CurrentSku r = None"
    if "r \<in> set (sort_key dc_EventTime (?enriched @ added))" "dc_Source r = ARG" for r
  proof -
    from that src have "r \<in> set added" by auto
    with a(2) obtain d where "d \<in> set newDisks" "r = argDiskChange d" by auto
    then show ?thesis by (auto simp: argDiskChange_def)
  qed
  with fin a(2) show ?thesis by metis
qed

theorem backfill_after_enrichment_witness:
  "(let d = \<lparr>nd_name = ''disk2'', nd_subscriptionId = ''s1'', nd_resourceGroup = ''rg1'',
          nd_location = ''westeurope'', nd_timeCreated = 90, nd_diskSizeGB = Some 128,
          nd_sku = ''Premium_LRS'', nd_osType = ''Linux'', nd_managedBy = ''vm-a'',
          nd_encryption = ''EncryptionAtRestWithPlatformKey''\<rparr>; m = \<lparr>dm_diskName = ''DISK2'', dm_subscriptionId = ''s1'', dm_resourceGroup = ''RG1'',
          dm_location = ''northeurope'', dm_managedBy = ''vm-b'', dm_diskSizeGB = Some 256,
          dm_sku = ''Standard_LRS''\<rparr>; sub = \<lparr>sub_ContextOk = True, sub_DiskLog = Some [\<lparr>op_ResultType = ''Success'', op_EventTimestamp = 100,
          op_ResourceType = ''Microsoft.Compute/disks'',
          op_ResourceId = Some ''/subscriptions/s1/resourceGroups/rg1/providers/Microsoft.Compute/disks/Disk1'',
          op_ResourceGroupName = Some ''rg1'',
          op_OperationNameValue = Some ''Microsoft.Compute/disks/create'',
          op_Caller = Some ''alice'', op_CorrelationId = Some ''c1'',
          op_PropertiesJson = None, op_StatusMessage = None\<rparr>], sub_VmLog = Some []\<rparr>;
        final = fst (GetChangedDisksSince (\<lambda>json fieldName. None) False None 50 [sub] (Some ([d], [m])))
    in argDiskChange d \<in> set final
       \<and> dc_Source (argDiskChange d) = ARG
       \<and> dc_Location (argDiskChange d) = Some ''westeurope''
       \<and> dc_ManagedBy (argDiskChange d) = Some ''vm-a''
       \<and> dc_CurrentSizeGB (argDiskChange d) = None
       \<and> dc_CurrentSku (argDiskChange d) = None)"
proof -
  let ?d = "\<lparr>nd_name = ''disk2'', nd_subscriptionId = ''s1'', nd_resourceGroup = ''rg1'',
          nd_location = ''westeurope'', nd_timeCreated = 90, nd_diskSizeGB = Some 128,
          nd_sku = ''Premium_LRS'', nd_osType = ''Linux'', nd_managedBy = ''vm-a'',
          nd_encryption = ''EncryptionAtRestWithPlatformKey''\<rparr>"
  let ?m = "\<lparr>dm_diskName = ''DISK2'', dm_subscriptionId = ''s1'', dm_resourceGroup = ''RG1'',
          dm_location = ''northeurope'', dm_managedBy = ''vm-b'', dm_diskSizeGB = Some 256,
          dm_sku = ''Standard_LRS''\<rparr>"
  let ?sub = "\<lparr>sub_ContextOk = True, sub_DiskLog = Some [\<lparr>op_ResultType = ''Success'', op_EventTimestamp = 100,
          op_ResourceType = ''Microsoft.Compute/disks'',
          op_ResourceId = Some ''/subscriptions/s1/resourceGroups/rg1/providers/Microsoft.Compute/disks/Disk1'',
          op_ResourceGroupName = Some ''rg1'',
          op_OperationNameValue = Some ''Microsoft.Compute/disks/create'',
          op_Caller = Some ''alice'', op_CorrelationId = Some ''c1'',
          op_PropertiesJson = None, op_StatusMessage = None\<rparr>], sub_VmLog = Some []\<rparr>"
  let ?final = "fst (GetChangedDisksSince (\<lambda>json fieldName. None) False None 50 [?sub] (Some ([?d], [?m])))"
  have mem: "argDiskChange ?d \<in> set ?final"
    by code_simp
  have src: "dc_Source (argDiskChange ?d) = ARG"
    by (simp add: argDiskChange_def)
  from backfill_after_enrichment [of "[?d]" "\<lambda>json fieldName. None" False None 50 "[?sub]" "[?m]"]
  have "\<forall>r\<in>set ?final. dc_Source r = ARG \<longrightarrow>
          (\<exists>d\<in>set [?d]. r = argDiskChange d \<and> dc_Location r = Some (nd_location d)
              \<and> dc_ManagedBy r = Some (nd_managedBy d)
              \<and> dc_CurrentSizeGB r = None \<and> dc_CurrentSku r = None)"
    by (rule conjunct2)
  with mem src have "\<exists>d\<in>set [?d]. argDiskChange ?d = argDiskChange d
        \<and> dc_Location (argDiskChange ?d) = Some (nd_location d)
        \<and> dc_ManagedBy (argDiskChange ?d) = Some (nd_managedBy d)
        \<and> dc_CurrentSizeGB (argDiskChange ?d) = None \<and> dc_CurrentSku (argDiskChange ?d) = None"
    by blast
  then have "dc_Location (argDiskChange ?d) = Some ''westeurope''
        \<and> dc_ManagedBy (argDiskChange ?d) = Some ''vm-a''
        \<and> dc_CurrentSizeGB (argDiskChange ?d) = None \<and> dc_CurrentSku (argDiskChange ?d) = None"
    by simp
  with mem src show ?thesis
    unfolding Let_def by blast
qed

text \<open>
  Claim C1, as the spec states it, fails. No Activity-Log event; ARG reports the new disk
  \<^verbatim>\<open>disk2\<close>, and the metadata query has a row for the same key with another location.
  The record added for the disk has no current size and no current SKU, and keeps the
  location of its own row; had the enrichment run over it (integration first, sketched
  in the last two lines), it would hold the size 256 and the other location.
\<close>

theorem backfill_before_enrichment_counterexample:
  "(let d = \<lparr>nd_name = ''disk2'', nd_subscriptionId = ''s1'', nd_resourceGroup = ''rg1'',
          nd_location = ''westeurope'', nd_timeCreated = 90, nd_diskSizeGB = Some 128,
          nd_sku = ''Premium_LRS'', nd_osType = ''Linux'', nd_managedBy = ''vm-a'',
          nd_encryption = ''EncryptionAtRestWithPlatformKey''\<rparr>; m = \<lparr>dm_diskName = ''DISK2'', dm_subscriptionId = ''s1'', dm_resourceGroup = ''RG1'',
          dm_location = ''northeurope'', dm_managedBy = ''vm-b'', dm_diskSizeGB = Some 256,
          dm_sku = ''Standard_LRS''\<rparr>; sub = \<lparr>sub_ContextOk = True, sub_DiskLog = Some [], sub_VmLog = Some []\<rparr>
    in map dc_CurrentSizeGB (fst (GetChangedDisksSince (\<lambda>json fieldName. None) False None 50 [sub] (Some ([d], [m]))))
         = [None]
       \<and> map dc_CurrentSku (fst (GetChangedDisksSince (\<lambda>json fieldName. None) False None 50 [sub] (Some ([d], [m]))))
         = [None]
       \<and> map dc_Location (fst (GetChangedDisksSince (\<lambda>json fieldName. None) False None 50 [sub] (Some ([d], [m]))))
         = [Some ''westeurope'']
       \<and> map dc_CurrentSizeGB (ArgEnrichment False None [m] (IntegrateArgNewDisks [d] []))
         = [Some (Some 256)]
       \<and> map dc_Location (ArgEnrichment False None [m] (IntegrateArgNewDisks [d] []))
         = [Some ''northeurope''])"
  by code_simp




text \<open>
  Claim C5. Across the enrichment block each record keeps a current size, a current SKU
  and a managed-by it already has, and all its other members but the location; on a key
  match the location becomes that of the metadata row, whatever it was.
\<close>

theorem enrichment_first_writer_wins:
  "list_all2 (\<lambda>row row'.
        (dc_CurrentSizeGB row \<noteq> None \<longrightarrow> dc_CurrentSizeGB row' = dc_CurrentSizeGB row)
      \<and> (dc_CurrentSku row \<noteq> None \<longrightarrow> dc_CurrentSku row' = dc_CurrentSku row)
      \<and> (dc_ManagedBy row \<noteq> None \<longrightarrow> dc_ManagedBy row' = dc_ManagedBy row)
      \<and> row'\<lparr>dc_Location := dc_Location row, dc_CurrentSizeGB := dc_CurrentSizeGB row,
              dc_CurrentSku := dc_CurrentSku row, dc_ManagedBy := dc_ManagedBy row\<rparr> = row)
     diskChanges (ArgEnrichment emptyIsTrue key0 diskMeta diskChanges)
   \<and> (lookupMeta indexDisk key = Some meta \<longrightarrow>
        dc_Location (enrichRow emptyIsTrue indexDisk key row) = Some (dm_location meta))"
proof
  show "list_all2 (\<lambda>row row'.
        (dc_CurrentSizeGB row \<noteq> None \<longrightarrow> dc_CurrentSizeGB row' = dc_CurrentSizeGB row)
      \<and> (dc_CurrentSku row \<noteq> None \<longrightarrow> dc_CurrentSku row' = dc_CurrentSku row)
      \<and> (dc_ManagedBy row \<noteq> None \<longrightarrow> dc_ManagedBy row' = dc_ManagedBy row)
      \<and> row'\<lparr>dc_Location := dc_Location row, dc_CurrentSizeGB := dc_CurrentSizeGB row,
              dc_CurrentSku := dc_CurrentSku row, dc_ManagedBy := dc_ManagedBy row\<rparr> = row)
     diskChanges (ArgEnrichment emptyIsTrue key0 diskMeta diskChanges)"
    unfolding ArgEnrichment_def
    by (auto split: prod.splits intro!: enrichRows_all2 simp: enrichRow_keeps enrichRow_frame)
next
  show "lookupMeta indexDisk key = Some meta \<longrightarrow>
        dc_Location (enrichRow emptyIsTrue indexDisk key row) = Some (dm_location meta)"
    by (simp add: enrichRow_location)
qed

theorem enrichment_first_writer_wins_witness:
  "(let d = \<lparr>nd_name = ''Disk1'', nd_subscriptionId = ''s1'', nd_resourceGroup = ''rg1'',
          nd_location = ''westeurope'', nd_timeCreated = 90, nd_diskSizeGB = Some 128,
          nd_sku = ''Premium_LRS'', nd_osType = ''Linux'', nd_managedBy = ''vm-a'',
          nd_encryption = ''EncryptionAtRestWithPlatformKey''\<rparr>; m = \<lparr>dm_diskName = ''DISK1'', dm_subscriptionId = ''s1'', dm_resourceGroup = ''RG1'',
          dm_location = ''northeurope'', dm_managedBy = ''vm-b'', dm_diskSizeGB = Some 256,
          dm_sku = ''Standard_LRS''\<rparr>
    in dc_ManagedBy (argDiskChange d) = Some ''vm-a''
       \<and> map dc_ManagedBy (ArgEnrichment False None [m] [argDiskChange d]) = [Some ''vm-a'']
       \<and> map dc_Location (ArgEnrichment False None [m] [argDiskChange d]) = [Some ''northeurope''])"
proof -
  let ?d = "\<lparr>nd_name = ''Disk1'', nd_subscriptionId = ''s1'', nd_resourceGroup = ''rg1'',
          nd_location = ''westeurope'', nd_timeCreated = 90, nd_diskSizeGB = Some 128,
          nd_sku = ''Premium_LRS'', nd_osType = ''Linux'', nd_managedBy = ''vm-a'',
          nd_encryption = ''EncryptionAtRestWithPlatformKey''\<rparr>"
  let ?m = "\<lparr>dm_diskName = ''DISK1'', dm_subscriptionId = ''s1'', dm_resourceGroup = ''RG1'',
          dm_location = ''northeurope'', dm_managedBy = ''vm-b'', dm_diskSizeGB = Some 256,
          dm_sku = ''Standard_LRS''\<rparr>"
  have len: "length (ArgEnrichment False None [?m] [argDiskChange ?d]) = 1"
    by code_simp
  then obtain r' where r': "ArgEnrichment False None [?m] [argDiskChange ?d] = [r']"
    by (cases "ArgEnrichment False None [?m] [argDiskChange ?d]") auto
  have mb: "dc_ManagedBy (argDiskChange ?d) = Some ''vm-a''"
    by (simp add: argDiskChange_def)
  have loc: "map dc_Location (ArgEnrichment False None [?m] [argDiskChange ?d]) = [Some ''northeurope'']"
    by code_simp
  from enrichment_first_writer_wins
    [of "[argDiskChange ?d]" False None "[?m]" Map.empty None ?m "argDiskChange ?d"]
  have "list_all2 (\<lambda>row row'.
        (dc_CurrentSizeGB row \<noteq> None \<longrightarrow> dc_CurrentSizeGB row' = dc_CurrentSizeGB row)
      \<and> (dc_CurrentSku row \<noteq> None \<longrightarrow> dc_CurrentSku row' = dc_CurrentSku row)
      \<and> (dc_ManagedBy row \<noteq> None \<longrightarrow> dc_ManagedBy row' = dc_ManagedBy row)
      \<and> row'\<lparr>dc_Location := dc_Location row, dc_CurrentSizeGB := dc_CurrentSizeGB row,
              dc_CurrentSku := dc_CurrentSku row, dc_ManagedBy := dc_ManagedBy row\<rparr> = row)
     [argDiskChange ?d] (ArgEnrichment False None [?m] [argDiskChange ?d])"
    by (rule conjunct1)
  then have "dc_ManagedBy (argDiskChange ?d) \<noteq> None \<longrightarrow> dc_ManagedBy r' = dc_ManagedBy (argDiskChange ?d)"
    unfolding r' by simp
  with mb have "dc_ManagedBy r' = Some ''vm-a''" by simp
  then have "map dc_ManagedBy (ArgEnrichment False None [?m] [argDiskChange ?d]) = [Some ''vm-a'']"
    unfolding r' by simp
  with mb loc show ?thesis
    unfolding Let_def by blast
qed

text \<open>
  Claim C10. A record built from an Activity-Log event has the event's resource group
  name as its location. In the final list, every record with source ActivityLog is the
  record of a disk event up to its location and the three members the enrichment adds,
  and its location is either still the resource group name or the location of a row of
  the metadata query, which needs ARG to be available.
\<close>

theorem ActivityLog_location_from_resource_group:
  "dc_Location (diskChangeOf tryParse op) = op_ResourceGroupName op
   \<and> (\<forall>r'\<in>set (fst (GetChangedDisksSince tryParse emptyIsTrue key0 StartDate subs arg)).
        dc_Source r' = ActivityLog \<longrightarrow>
          (\<exists>sub\<in>set subs. \<exists>logDisks. sub_DiskLog sub = Some logDisks \<and>
             (\<exists>ev\<in>set logDisks.
                r'\<lparr>dc_Location := op_ResourceGroupName ev, dc_CurrentSizeGB := None,
                    dc_CurrentSku := None, dc_ManagedBy := None\<rparr> = diskChangeOf tryParse ev
                \<and> (dc_Location r' = op_ResourceGroupName ev
                    \<or> (\<exists>newDisks diskMeta. arg = Some (newDisks, diskMeta)
                          \<and> (\<exists>m\<in>set diskMeta. dc_Location r' = Some (dm_location m)))))))"
proof (intro conjI ballI impI)
  show "dc_Location (diskChangeOf tryParse op) = op_ResourceGroupName op"
    by (simp add: diskChangeOf_fields)
next
  fix r'
  let ?rows = "readDiskChanges tryParse StartDate subs"
  let ?goal = "\<lambda>r'. \<exists>sub\<in>set subs. \<exists>logDisks. sub_DiskLog sub = Some logDisks \<and>
             (\<exists>ev\<in>set logDisks.
                r'\<lparr>dc_Location := op_ResourceGroupName ev, dc_CurrentSizeGB := None,
                    dc_CurrentSku := None, dc_ManagedBy := None\<rparr> = diskChangeOf tryParse ev
                \<and> (dc_Location r' = op_ResourceGroupName ev
                    \<or> (\<exists>newDisks diskMeta. arg = Some (newDisks, diskMeta)
                          \<and> (\<exists>m\<in>set diskMeta. dc_Location r' = Some (dm_location m)))))"
  assume mem: "r' \<in> set (fst (GetChangedDisksSince tryParse emptyIsTrue key0 StartDate subs arg))"
    and al: "dc_Source r' = ActivityLog"
  have plain: "?goal r" if "r \<in> set ?rows" for r
  proof -
    from readDiskChanges_set[OF that] obtain sub logDisks ev where
      e: "sub \<in> set subs" "sub_DiskLog sub = Some logDisks" "ev \<in> set logDisks"
      "r = diskChangeOf tryParse ev" by blast
    have "r\<lparr>dc_Location := op_ResourceGroupName ev, dc_CurrentSizeGB := None,
           dc_CurrentSku := None, dc_ManagedBy := None\<rparr> = diskChangeOf tryParse ev"
      "dc_Location r = op_ResourceGroupName ev"
      using e(4) by (simp_all add: diskChangeOf_def Let_def)
    with e(1,2,3) show ?thesis by blast
  qed
  show "?goal r'"
  proof (cases arg)
    case None
    with mem have "r' \<in> set ?rows"
      by (simp add: GetChangedDisksSince_def Let_def)
    then show ?thesis by (rule plain)
  next
    case (Some p)
    obtain newDisks diskMeta where p: "p = (newDisks, diskMeta)" by (cases p)
    let ?enriched = "ArgEnrichment emptyIsTrue key0 diskMeta ?rows"
    obtain added where a: "IntegrateArgNewDisks newDisks ?enriched = ?enriched @ added"
      "set added \<subseteq> argDiskChange ` set newDisks"
      using IntegrateArgNewDisks_appends by blast
    from mem Some p a(1) have "r' \<in> set ?enriched \<or> r' \<in> set added"
      by (simp add: GetChangedDisksSince_def Let_def)
    moreover have "r' \<notin> set added"
      using a(2) al by (auto simp: argDiskChange_def)
    ultimately have "r' \<in> set ?enriched" by simp
    from ArgEnrichment_set[OF this] obtain r indexDisk k where
      r: "r \<in> set ?rows" "r' = enrichRow emptyIsTrue indexDisk k r"
      "\<forall>key m. indexDisk key = Some m \<longrightarrow> m \<in> set diskMeta" by blast
    from readDiskChanges_set[OF r(1)] obtain sub logDisks ev where
      e: "sub \<in> set subs" "sub_DiskLog sub = Some logDisks" "ev \<in> set logDisks"
      "r = diskChangeOf tryParse ev" by blast
    have r0: "dc_Location r = op_ResourceGroupName ev" "dc_CurrentSizeGB r = None"
      "dc_CurrentSku r = None" "dc_ManagedBy r = None"
      using e(4) by (simp_all add: diskChangeOf_def Let_def)
    have frame: "r'\<lparr>dc_Location := op_ResourceGroupName ev, dc_CurrentSizeGB := None,
           dc_CurrentSku := None, dc_ManagedBy := None\<rparr> = diskChangeOf tryParse ev"
      using enrichRow_frame[where b=emptyIsTrue and indexDisk=indexDisk and key=k and row=r] r(2) r0 e(4) by simp
    have "dc_Location r' = op_ResourceGroupName ev
        \<or> (\<exists>m\<in>set diskMeta. dc_Location r' = Some (dm_location m))"
    proof (cases "lookupMeta indexDisk k")
      case None
      then show ?thesis using r(2) r0(1) by (simp add: enrichRow_location)
    next
      case (Some meta)
      then have "meta \<in> set diskMeta"
        using r(3) by (auto simp: lookupMeta_def split: option.splits)
      moreover have "dc_Location r' = Some (dm_location meta)"
        using Some r(2) by (simp add: enrichRow_location)
      ultimately show ?thesis by blast
    qed
    with frame e(1,2,3) Some p show ?thesis by blast
  qed
qed

theorem ActivityLog_location_from_resource_group_witness:
  "(let m = \<lparr>dm_diskName = ''DISK1'', dm_subscriptionId = ''s1'', dm_resourceGroup = ''RG1'',
          dm_location = ''northeurope'', dm_managedBy = ''vm-b'', dm_diskSizeGB = Some 256,
          dm_sku = ''Standard_LRS''\<rparr>; sub = \<lparr>sub_ContextOk = True, sub_DiskLog = Some [\<lparr>op_ResultType = ''Success'', op_EventTimestamp = 100,
          op_ResourceType = ''Microsoft.Compute/disks'',
          op_ResourceId = Some ''/subscriptions/s1/resourceGroups/rg1/providers/Microsoft.Compute/disks/Disk1'',
          op_ResourceGroupName = Some ''rg1'',
          op_OperationNameValue = Some ''Microsoft.Compute/disks/create'',
          op_Caller = Some ''alice'', op_CorrelationId = Some ''c1'',
          op_PropertiesJson = None, op_StatusMessage = None\<rparr>], sub_VmLog = Some []\<rparr>
    in map dc_Location (fst (GetChangedDisksSince (\<lambda>json fieldName. None) False None 50 [sub] None)) = [Some ''rg1'']
       \<and> map dc_Location (fst (GetChangedDisksSince (\<lambda>json fieldName. None) False None 50 [sub] (Some ([], [m]))))
            = [Some ''northeurope''])"
proof -
  let ?m = "\<lparr>dm_diskName = ''DISK1'', dm_subscriptionId = ''s1'', dm_resourceGroup = ''RG1'',
          dm_location = ''northeurope'', dm_managedBy = ''vm-b'', dm_diskSizeGB = Some 256,
          dm_sku = ''Standard_LRS''\<rparr>"
  let ?sub = "\<lparr>sub_ContextOk = True, sub_DiskLog = Some [\<lparr>op_ResultType = ''Success'', op_EventTimestamp = 100,
          op_ResourceType = ''Microsoft.Compute/disks'',
          op_ResourceId = Some ''/subscriptions/s1/resourceGroups/rg1/providers/Microsoft.Compute/disks/Disk1'',
          op_ResourceGroupName = Some ''rg1'',
          op_OperationNameValue = Some ''Microsoft.Compute/disks/create'',
          op_Caller = Some ''alice'', op_CorrelationId = Some ''c1'',
          op_PropertiesJson = None, op_StatusMessage = None\<rparr>], sub_VmLog = Some []\<rparr>"
  let ?op = "\<lparr>op_ResultType = ''Success'', op_EventTimestamp = 100,
          op_ResourceType = ''Microsoft.Compute/disks'',
          op_ResourceId = Some ''/subscriptions/s1/resourceGroups/rg1/providers/Microsoft.Compute/disks/Disk1'',
          op_ResourceGroupName = Some ''rg1'',
          op_OperationNameValue = Some ''Microsoft.Compute/disks/create'',
          op_Caller = Some ''alice'', op_CorrelationId = Some ''c1'',
          op_PropertiesJson = None, op_StatusMessage = None\<rparr>"
  have ev: "fst (GetChangedDisksSince (\<lambda>json fieldName. None) False None 50 [?sub] None) = [diskChangeOf (\<lambda>json fieldName. None) ?op]"
    by code_simp
  from ActivityLog_location_from_resource_group [of "\<lambda>json fieldName. None" ?op False None 50 "[?sub]" None]
  have "dc_Location (diskChangeOf (\<lambda>json fieldName. None) ?op) = op_ResourceGroupName ?op"
    by (rule conjunct1)
  then have a: "map dc_Location (fst (GetChangedDisksSince (\<lambda>json fieldName. None) False None 50 [?sub] None)) = [Some ''rg1'']"
    unfolding ev by simp
  have b: "map dc_Location (fst (GetChangedDisksSince (\<lambda>json fieldName. None) False None 50 [?sub] (Some ([], [?m]))))
            = [Some ''northeurope'']"
    by code_simp
  from a b show ?thesis
    unfolding Let_def by blast
qed

end
